theory Spec2Isabelle
  imports Complex_Main "HOL-Library.Word" "HOL-Library.Sublist"
begin

section \<open>JavaScript strings\<close>

text \<open>
  A JavaScript string is a sequence of 16-bit code units. The terminal client
  (\<^verbatim>\<open>tui.js\<close>) produces code units above 255 itself (the bullet of list items, the
  icons of its feedback lines, \<^verbatim>\<open>String.fromCharCode\<close>), so a string is a list of
  16-bit words; \<open>js\<close> embeds an ASCII literal.
\<close>

type_synonym cu = "16 word"
type_synonym jstring = "cu list"

definition js :: "string \<Rightarrow> jstring" where
  "js s = map of_char s"

definition NL :: cu where
  "NL = 10"

text \<open>
  The set shared by \<^verbatim>\<open>String.prototype.trim\<close> and the class \<^verbatim>\<open>\s\<close>: the
  WhiteSpace and LineTerminator code points of ECMAScript.
\<close>

definition is_space :: "cu \<Rightarrow> bool" where
  "is_space c =
     (c = 9 \<or> c = 10 \<or> c = 11 \<or> c = 12 \<or> c = 13 \<or> c = 32 \<or> c = 160 \<or> c = 5760
      \<or> (8192 \<le> c \<and> c \<le> 8202) \<or> c = 8232 \<or> c = 8233 \<or> c = 8239 \<or> c = 8287
      \<or> c = 12288 \<or> c = 65279)"

definition trimStart :: "jstring \<Rightarrow> jstring" where
  "trimStart s = dropWhile is_space s"

definition trimEnd :: "jstring \<Rightarrow> jstring" where
  "trimEnd s = rev (dropWhile is_space (rev s))"

definition trim :: "jstring \<Rightarrow> jstring" where
  "trim s = trimEnd (trimStart s)"

fun startsWith :: "jstring \<Rightarrow> jstring \<Rightarrow> bool" where
  "startsWith s [] = True"
| "startsWith [] (p # ps) = False"
| "startsWith (x # xs) (p # ps) = (x = p \<and> startsWith xs ps)"

text \<open>\<^verbatim>\<open>s.split(sep)\<close> for a one-character separator: never an empty array.\<close>

fun split :: "cu \<Rightarrow> jstring \<Rightarrow> jstring list" where
  "split sep [] = [[]]"
| "split sep (x # xs) =
     (if x = sep then [] # split sep xs
      else (case split sep xs of
              [] \<Rightarrow> [[x]]
            | l # ls \<Rightarrow> (x # l) # ls))"

fun join :: "jstring \<Rightarrow> jstring list \<Rightarrow> jstring" where
  "join sep [] = []"
| "join sep [l] = l"
| "join sep (l # ls) = l @ sep @ join sep ls"

section \<open>The regular expressions of the client\<close>

text \<open>
  Every regular expression of \<^verbatim>\<open>tui.js\<close> is a sequence of literal characters, one
  optional character, and quantified character classes, some of them captured. None has
  an anchor, a look-around or a back-reference (the one anchored test, for user lines, is
  applied at the start of a line), so a match at a position depends on the text from
  that position on only.
\<close>

datatype cls =
    AnyChar          \<comment> \<open>\<^verbatim>\<open>[\s\S]\<close>\<close>
  | Dot              \<comment> \<open>\<^verbatim>\<open>.\<close>: anything but a line terminator\<close>
  | Not cu           \<comment> \<open>\<^verbatim>\<open>[^c]\<close>\<close>
  | Space            \<comment> \<open>\<^verbatim>\<open>\s\<close>\<close>
  | Digit            \<comment> \<open>\<^verbatim>\<open>\d\<close>\<close>
  | Only cu          \<comment> \<open>a single character under a quantifier\<close>

definition in_cls :: "cls \<Rightarrow> cu \<Rightarrow> bool" where
  "in_cls k c =
     (case k of
        AnyChar \<Rightarrow> True
      | Dot \<Rightarrow> \<not> (c = 10 \<or> c = 13 \<or> c = 8232 \<or> c = 8233)
      | Not d \<Rightarrow> c \<noteq> d
      | Space \<Rightarrow> is_space c
      | Digit \<Rightarrow> 48 \<le> c \<and> c \<le> 57
      | Only d \<Rightarrow> c = d)"

text \<open>
  \<open>Rep greedy lo k\<close> is the class \<open>k\<close> repeated \<open>lo\<close> times or more, greedy or lazy;
  \<open>CapRep\<close> is the same inside a capture group.
\<close>

datatype atom =
    Lit cu
  | Opt cu
  | Rep bool nat cls
  | CapRep bool nat cls

definition lit :: "string \<Rightarrow> atom list" where
  "lit s = map Lit (js s)"

abbreviation many :: "cls \<Rightarrow> atom" where          \<comment> \<open>\<^verbatim>\<open>k*\<close>\<close>
  "many k \<equiv> Rep True 0 k"

abbreviation many1 :: "cls \<Rightarrow> atom" where         \<comment> \<open>\<^verbatim>\<open>k+\<close>\<close>
  "many1 k \<equiv> Rep True 1 k"

abbreviation cap_many :: "cls \<Rightarrow> atom" where      \<comment> \<open>\<^verbatim>\<open>(k*)\<close>\<close>
  "cap_many k \<equiv> CapRep True 0 k"

abbreviation cap_many1 :: "cls \<Rightarrow> atom" where     \<comment> \<open>\<^verbatim>\<open>(k+)\<close>\<close>
  "cap_many1 k \<equiv> CapRep True 1 k"

abbreviation cap_few :: "cls \<Rightarrow> atom" where       \<comment> \<open>\<^verbatim>\<open>(k*?)\<close>\<close>
  "cap_few k \<equiv> CapRep False 0 k"

text \<open>
  Case folding of the \<^verbatim>\<open>i\<close> flag (no \<^verbatim>\<open>u\<close> flag). The patterns hold ASCII
  characters only, and ECMAScript's Canonicalize never maps a code unit above 127 to
  one below 128, so folding the ASCII letters decides every comparison with a pattern
  character.
\<close>

definition canonicalize :: "cu \<Rightarrow> cu" where
  "canonicalize c = (if 97 \<le> c \<and> c \<le> 122 then c - 32 else c)"

definition same_char :: "bool \<Rightarrow> cu \<Rightarrow> cu \<Rightarrow> bool" where
  "same_char ic p c = (if ic then canonicalize p = canonicalize c else p = c)"

definition run :: "cls \<Rightarrow> jstring \<Rightarrow> nat" where
  "run k s = length (takeWhile (in_cls k) s)"

text \<open>The repetition counts a quantifier tries, in the order backtracking tries them.\<close>

definition counts :: "bool \<Rightarrow> nat \<Rightarrow> nat \<Rightarrow> nat list" where
  "counts greedy lo hi = (if greedy then rev [lo..<Suc hi] else [lo..<Suc hi])"

definition advance :: "nat \<Rightarrow> jstring list \<Rightarrow> nat \<times> jstring list \<Rightarrow> nat \<times> jstring list" where
  "advance n cs m = (n + fst m, cs @ snd m)"

text \<open>
  All the matches of a pattern at the start of \<open>s\<close>, in the priority order of a
  backtracking matcher: the number of code units matched and the captures. The
  first one is the match JavaScript reports. \<open>ic\<close> is the \<^verbatim>\<open>i\<close> flag.
\<close>

fun rx_match :: "bool \<Rightarrow> atom list \<Rightarrow> jstring \<Rightarrow> (nat \<times> jstring list) list" where
  "rx_match ic [] s = [(0, [])]"
| "rx_match ic (Lit p # as) s =
     (case s of
        [] \<Rightarrow> []
      | c # cs \<Rightarrow> if same_char ic p c then map (advance 1 []) (rx_match ic as cs) else [])"
| "rx_match ic (Opt p # as) s =
     (case s of
        [] \<Rightarrow> []
      | c # cs \<Rightarrow> if same_char ic p c then map (advance 1 []) (rx_match ic as cs) else [])
     @ rx_match ic as s"
| "rx_match ic (Rep greedy lo k # as) s =
     concat (map (\<lambda>n. map (advance n []) (rx_match ic as (drop n s)))
                 (counts greedy lo (run k s)))"
| "rx_match ic (CapRep greedy lo k # as) s =
     concat (map (\<lambda>n. map (advance n [take n s]) (rx_match ic as (drop n s)))
                 (counts greedy lo (run k s)))"

definition rx_exec :: "bool \<Rightarrow> atom list \<Rightarrow> jstring \<Rightarrow> (nat \<times> jstring list) option" where
  "rx_exec ic rx s = (case rx_match ic rx s of [] \<Rightarrow> None | m # _ \<Rightarrow> Some m)"

text \<open>
  \<^verbatim>\<open>s.replace(/rx/g, f)\<close>: the leftmost match is replaced by \<open>f\<close> of its captures
  and the search goes on after it; after an empty match it goes on one code unit
  further, as \<^verbatim>\<open>lastIndex\<close> does.
\<close>

function replace_all :: "bool \<Rightarrow> atom list \<Rightarrow> (jstring list \<Rightarrow> jstring) \<Rightarrow> jstring \<Rightarrow> jstring" where
  "replace_all ic rx f [] =
     (case rx_exec ic rx [] of None \<Rightarrow> [] | Some m \<Rightarrow> f (snd m))"
| "replace_all ic rx f (c # cs) =
     (case rx_exec ic rx (c # cs) of
        None \<Rightarrow> c # replace_all ic rx f cs
      | Some m \<Rightarrow>
          f (snd m) @
          (if fst m = 0 then c # replace_all ic rx f cs
           else replace_all ic rx f (drop (fst m) (c # cs))))"
  by pat_completeness auto
termination
  by (relation "measure (\<lambda>(ic, rx, f, s). length s)") auto

text \<open>The capture \<^verbatim>\<open>$i\<close> (an unmatched group is the empty string).\<close>

definition cap :: "nat \<Rightarrow> jstring list \<Rightarrow> jstring" where
  "cap i cs = (if 0 < i \<and> i \<le> length cs then cs ! (i - 1) else [])"

section \<open>HTML to text\<close>

subsection \<open>Entities\<close>

text \<open>
  \<^verbatim>\<open>parseInt(n)\<close> on the digits captured by \<^verbatim>\<open>(\d+)\<close> is a Number: the decimal
  value rounded to a double (53 significant bits, to nearest, ties to even), or
  Infinity (\<open>None\<close>) from \<open>2 ^ 1024\<close> on. \<^verbatim>\<open>String.fromCharCode\<close> takes the
  Number modulo \<open>2 ^ 16\<close> (ToUint16), and Infinity to 0.
\<close>

definition digits_value :: "jstring \<Rightarrow> nat" where
  "digits_value n = foldl (\<lambda>a c. 10 * a + unat (c - 48)) 0 n"

fun bit_length :: "nat \<Rightarrow> nat" where
  "bit_length n = (if n = 0 then 0 else Suc (bit_length (n div 2)))"

definition round_double :: "nat \<Rightarrow> nat option" where
  "round_double n =
     (let e = bit_length n - 53;
          q = n div 2 ^ e;
          r = n mod 2 ^ e;
          q' = (if 2 ^ e < 2 * r \<or> (2 * r = 2 ^ e \<and> odd q) then q + 1 else q);
          m = q' * 2 ^ e
      in if m < 2 ^ 1024 then Some m else None)"

definition parseInt :: "jstring \<Rightarrow> nat option" where
  "parseInt n = round_double (digits_value n)"

definition fromCharCode :: "nat option \<Rightarrow> jstring" where
  "fromCharCode v = (case v of None \<Rightarrow> [0] | Some m \<Rightarrow> [of_nat m])"

definition rx_entity :: "string \<Rightarrow> atom list" where
  "rx_entity name = lit ''&'' @ lit name @ lit '';''"

definition rx_numeric_entity :: "atom list" where   \<comment> \<open>\<^verbatim>\<open>/&#(\d+);/g\<close>\<close>
  "rx_numeric_entity = lit ''&#'' @ [cap_many1 Digit] @ lit '';''"

definition decodeEntities :: "jstring \<Rightarrow> jstring" where
  "decodeEntities str =
     (let str = replace_all False (rx_entity ''amp'') (\<lambda>_. js ''&'') str;
          str = replace_all False (rx_entity ''lt'') (\<lambda>_. js ''<'') str;
          str = replace_all False (rx_entity ''gt'') (\<lambda>_. js ''>'') str;
          str = replace_all False (rx_entity ''quot'') (\<lambda>_. [34]) str;
          str = replace_all False (rx_entity ''#39'') (\<lambda>_. [39]) str;
          str = replace_all False (rx_entity ''nbsp'') (\<lambda>_. js '' '') str
      in replace_all False rx_numeric_entity (\<lambda>cs. fromCharCode (parseInt (cap 1 cs))) str)"

subsection \<open>The patterns of \<^verbatim>\<open>htmlToText\<close>\<close>

definition GT :: cu where
  "GT = 62"

definition rx_tag :: "atom list" where              \<comment> \<open>\<^verbatim>\<open>/<[^>]+>/g\<close>\<close>
  "rx_tag = lit ''<'' @ [many1 (Not GT)] @ lit ''>''"

definition rx_pre_code :: "atom list" where
  \<comment> \<open>\<^verbatim>\<open>/<pre[^>]*><code[^>]*>([\s\S]*?)<\/code><\/pre>/gi\<close>\<close>
  "rx_pre_code =
     lit ''<pre'' @ [many (Not GT)] @ lit ''><code'' @ [many (Not GT)] @ lit ''>''
     @ [cap_few AnyChar] @ lit ''</code></pre>''"

definition rx_pre :: "atom list" where              \<comment> \<open>\<^verbatim>\<open>/<pre[^>]*>([\s\S]*?)<\/pre>/gi\<close>\<close>
  "rx_pre = lit ''<pre'' @ [many (Not GT)] @ lit ''>'' @ [cap_few AnyChar] @ lit ''</pre>''"

text \<open>\<^verbatim>\<open>/<name[^>]*>(.*?)<\/name>/gi\<close>, for code, h1 to h4, li, strong, b and em.\<close>

definition rx_element :: "string \<Rightarrow> atom list" where
  "rx_element name =
     lit ''<'' @ lit name @ [many (Not GT)] @ lit ''>'' @ [cap_few Dot]
     @ lit ''</'' @ lit name @ lit ''>''"

definition rx_br :: "atom list" where               \<comment> \<open>\<^verbatim>\<open>/<br\s*\/?>/gi\<close>\<close>
  "rx_br = lit ''<br'' @ [many Space, Opt 47] @ lit ''>''"

definition rx_close :: "string \<Rightarrow> atom list" where  \<comment> \<open>\<^verbatim>\<open>/<\/name>/gi\<close>\<close>
  "rx_close name = lit ''</'' @ lit name @ lit ''>''"

definition rx_blockquote :: "atom list" where
  \<comment> \<open>\<^verbatim>\<open>/<blockquote[^>]*>([\s\S]*?)<\/blockquote>/gi\<close>\<close>
  "rx_blockquote =
     lit ''<blockquote'' @ [many (Not GT)] @ lit ''>'' @ [cap_few AnyChar]
     @ lit ''</blockquote>''"

definition rx_a :: "atom list" where
  \<comment> \<open>\<^verbatim>\<open>/<a[^>]*href="([^"]*)"[^>]*>(.*?)<\/a>/gi\<close>\<close>
  "rx_a =
     lit ''<a'' @ [many (Not GT)] @ lit ''href='' @ [Lit 34, cap_many (Not 34), Lit 34]
     @ [many (Not GT)] @ lit ''>'' @ [cap_few Dot] @ lit ''</a>''"

definition rx_newlines :: "atom list" where         \<comment> \<open>\<^verbatim>\<open>/\n{3,}/g\<close>\<close>
  "rx_newlines = [Rep True 3 (Only NL)]"

subsection \<open>The replacements\<close>

definition strip_tags :: "jstring \<Rightarrow> jstring" where
  "strip_tags s = replace_all False rx_tag (\<lambda>_. []) s"

definition code_block :: "jstring list \<Rightarrow> jstring" where
  "code_block cs =
     (let decoded = decodeEntities (strip_tags (cap 1 cs))
      in [NL] @ js ''```'' @ [NL] @ trim decoded @ [NL] @ js ''```'' @ [NL])"

definition inline_code :: "jstring list \<Rightarrow> jstring" where
  "inline_code cs = js ''`'' @ decodeEntities (strip_tags (cap 1 cs)) @ js ''`''"

definition heading :: "string \<Rightarrow> jstring list \<Rightarrow> jstring" where
  "heading marks cs = [NL] @ js marks @ js '' '' @ cap 1 cs @ [NL]"

definition list_item :: "jstring list \<Rightarrow> jstring" where   \<comment> \<open>the bullet is U+2022\<close>
  "list_item cs = js ''  '' @ [8226] @ js '' '' @ cap 1 cs @ [NL]"

definition blockquote :: "jstring list \<Rightarrow> jstring" where
  "blockquote cs =
     join [NL] (map (\<lambda>l. js ''  > '' @ trim l) (split NL (strip_tags (cap 1 cs)))) @ [NL]"

definition wrap :: "string \<Rightarrow> jstring list \<Rightarrow> jstring" where
  "wrap mark cs = js mark @ cap 1 cs @ js mark"

definition link :: "jstring list \<Rightarrow> jstring" where
  "link cs = cap 2 cs @ js '' ('' @ cap 1 cs @ js '')''"

subsection \<open>\<^verbatim>\<open>htmlToText\<close>\<close>

text \<open>
  The argument is \<open>None\<close> when the caller passes no string (\<^verbatim>\<open>undefined\<close>,
  \<^verbatim>\<open>null\<close>); \<^verbatim>\<open>!html\<close> holds of that and of the empty string.
\<close>

definition htmlToText :: "jstring option \<Rightarrow> jstring" where
  "htmlToText html =
     (case html of
        None \<Rightarrow> []
      | Some h \<Rightarrow>
          if h = [] then []
          else
            (let text = h;
                 text = replace_all True rx_pre_code code_block text;
                 text = replace_all True rx_pre code_block text;
                 text = replace_all True (rx_element ''code'') inline_code text;
                 text = replace_all True (rx_element ''h1'') (heading ''#'') text;
                 text = replace_all True (rx_element ''h2'') (heading ''##'') text;
                 text = replace_all True (rx_element ''h3'') (heading ''###'') text;
                 text = replace_all True (rx_element ''h4'') (heading ''####'') text;
                 text = replace_all True (rx_element ''li'') list_item text;
                 text = replace_all True rx_br (\<lambda>_. [NL]) text;
                 text = replace_all True (rx_close ''p'') (\<lambda>_. [NL]) text;
                 text = replace_all True (rx_close ''div'') (\<lambda>_. [NL]) text;
                 text = replace_all True (rx_close ''tr'') (\<lambda>_. [NL]) text;
                 text = replace_all True rx_blockquote blockquote text;
                 text = replace_all True (rx_element ''strong'') (wrap ''*'') text;
                 text = replace_all True (rx_element ''b'') (wrap ''*'') text;
                 text = replace_all True (rx_element ''em'') (wrap ''_'') text;
                 text = replace_all True rx_a link text;
                 text = strip_tags text;
                 text = decodeEntities text;
                 text = replace_all False rx_newlines (\<lambda>_. [NL, NL]) text
             in trim text))"

section \<open>The terminal client\<close>

subsection \<open>State and effects\<close>

text \<open>
  The module-level variables of \<^verbatim>\<open>tui.js\<close> and what the widgets hold. Effects are
  logged: the HTTP requests issued, the timers set, the number of calls of
  \<^verbatim>\<open>screen.render\<close>. \<open>sendCalls\<close> is a ghost log of the arguments
  \<^verbatim>\<open>sendMessage\<close> was called with.
\<close>

datatype widget = NoWidget | InputBox | ChatBox | Modal

datatype task = ClearFeedback | RefreshSnapshot

datatype request =
    Get jstring
  | Post jstring "(jstring \<times> jstring) list"

record tui =
  currentMode :: jstring
  currentModel :: jstring
  connected :: bool
  cdpConnected :: bool
  lastChatText :: jstring
  statusContent :: jstring
  chatContent :: jstring
  chatScrollPerc :: nat
  feedbackContent :: jstring
  inputValue :: jstring
  focused :: widget
  renders :: nat
  requests :: "request list"
  timers :: "(nat \<times> task) list"
  sendCalls :: "jstring list"

definition initial :: tui where
  "initial =
     \<lparr>currentMode = js ''Unknown'', currentModel = js ''Unknown'', connected = False,
      cdpConnected = False, lastChatText = [], statusContent = [], chatContent = [],
      chatScrollPerc = 0, feedbackContent = [], inputValue = [], focused = NoWidget,
      renders = 0, requests = [], timers = [], sendCalls = []\<rparr>"

text \<open>The command line: \<^verbatim>\<open>HOST\<close>, \<^verbatim>\<open>PORT\<close> as it prints, and \<^verbatim>\<open>BASE\<close>.\<close>

record config =
  HOST :: jstring
  PORT :: jstring
  BASE :: jstring

text \<open>
  A promise of \<^verbatim>\<open>apiGet\<close> or \<^verbatim>\<open>apiPost\<close> settles rejected, with the message
  of the error, or resolved with the parsed body. The bodies carry the fields the
  client reads, with the types the server gives them; a field is \<open>None\<close> when it is
  missing, as every field is of a body that is not a JSON object. Of the body
  \<^verbatim>\<open>null\<close> the first field read throws, and the \<^verbatim>\<open>catch\<close> of the caller takes it as
  it takes a rejection.
\<close>

datatype 'a reply = Rejected jstring | Resolved 'a

record snapshot_body =
  snap_html :: "jstring option"
  snap_error :: "jstring option"

record state_body =
  state_mode :: "jstring option"
  state_model :: "jstring option"

record post_body =
  res_success :: "bool option"
  res_error :: "jstring option"

text \<open>Truthiness of a string field, and \<^verbatim>\<open>field || dflt\<close>.\<close>

definition truthy :: "jstring option \<Rightarrow> bool" where
  "truthy v = (case v of None \<Rightarrow> False | Some x \<Rightarrow> x \<noteq> [])"

definition or_else :: "jstring option \<Rightarrow> jstring \<Rightarrow> jstring" where
  "or_else v dflt = (case v of None \<Rightarrow> dflt | Some x \<Rightarrow> if x = [] then dflt else x)"

definition issue :: "request \<Rightarrow> tui \<Rightarrow> tui" where
  "issue r s = s\<lparr>requests := requests s @ [r]\<rparr>"

definition setTimeout :: "task \<Rightarrow> nat \<Rightarrow> tui \<Rightarrow> tui" where
  "setTimeout t ms s = s\<lparr>timers := timers s @ [(ms, t)]\<rparr>"

definition render :: "tui \<Rightarrow> tui" where
  "render s = s\<lparr>renders := Suc (renders s)\<rparr>"

definition updateStatus :: "config \<Rightarrow> tui \<Rightarrow> tui" where
  "updateStatus cfg s =
     (let connIcon = (if connected s then js ''{green-fg}'' @ [9679] @ js ''{/}''
                      else js ''{red-fg}'' @ [9679] @ js ''{/}'');
          cdpIcon = (if cdpConnected s then js ''{green-fg}CDP{/}'' else js ''{red-fg}CDP{/}'')
      in render (s\<lparr>statusContent :=
           js '' '' @ connIcon @ js '' Antigravity  '' @ [9474] @ js ''  '' @ cdpIcon
           @ js ''  '' @ [9474] @ js ''  Mode: {bold}'' @ currentMode s @ js ''{/}  ''
           @ [9474] @ js ''  Model: {bold}'' @ currentModel s @ js ''{/}  '' @ [9474]
           @ js ''  {cyan-fg}'' @ HOST cfg @ js '':'' @ PORT cfg @ js ''{/}''\<rparr>))"

definition showFeedback :: "jstring \<Rightarrow> string \<Rightarrow> tui \<Rightarrow> tui" where
  "showFeedback msg color s =
     setTimeout ClearFeedback 3000
       (render (s\<lparr>feedbackContent := js '' {'' @ js color @ js ''-fg}'' @ msg @ js ''{/}''\<rparr>))"

subsection \<open>Chat rendering\<close>

definition is_user_line :: "jstring \<Rightarrow> bool" where   \<comment> \<open>\<^verbatim>\<open>/^(You|Human|User)\s*:/i\<close>\<close>
  "is_user_line line =
     list_ex (\<lambda>who. rx_exec True (lit who @ [many Space] @ lit '':'') line \<noteq> None)
       [''You'', ''Human'', ''User'']"

definition color_line :: "jstring \<Rightarrow> jstring" where
  "color_line line =
     (if is_user_line line then js ''{cyan-fg}{bold}'' @ line @ js ''{/}''
      else if startsWith line (js ''```'') then js ''{yellow-fg}'' @ line @ js ''{/}''
      else if startsWith line (js ''#'') then js ''{green-fg}{bold}'' @ line @ js ''{/}''
      else if startsWith (trimStart line) [8226] then js ''{white-fg}'' @ line @ js ''{/}''
      else line)"

definition colored :: "jstring \<Rightarrow> jstring" where
  "colored text = join [NL] (map color_line (split NL text))"

definition renderChat :: "jstring option \<Rightarrow> tui \<Rightarrow> tui" where
  "renderChat html s =
     (let text = htmlToText html
      in if text = lastChatText s then s
         else render (s\<lparr>lastChatText := text, chatContent := colored text,
                        chatScrollPerc := 100\<rparr>))"

subsection \<open>API actions\<close>

text \<open>
  An \<^verbatim>\<open>async\<close> function is run with the reply its request gets: the part before
  the \<^verbatim>\<open>await\<close>, then the part after it.
\<close>

definition refreshSnapshot :: "config \<Rightarrow> snapshot_body reply \<Rightarrow> tui \<Rightarrow> tui" where
  "refreshSnapshot cfg r s =
     (let s = issue (Get (js ''/snapshot'')) s
      in updateStatus cfg
           (case r of
              Resolved snap \<Rightarrow>
                (if truthy (snap_html snap) then renderChat (snap_html snap) s
                 else if truthy (snap_error snap) then
                   render (s\<lparr>chatContent :=
                     js ''{yellow-fg}'' @ [9203] @ js '' '' @ the (snap_error snap) @ js ''{/}''
                     @ [NL, NL] @ js ''{white-fg}Waiting for an active chat in Antigravity...{/}''\<rparr>)
                 else s)\<lparr>connected := True\<rparr>
            | Rejected e \<Rightarrow>
                render (s\<lparr>connected := False, chatContent :=
                  js ''{red-fg}'' @ [10060] @ js '' Cannot connect to server at '' @ BASE cfg
                  @ js ''{/}'' @ [NL, NL]
                  @ js ''{white-fg}Make sure the server is running: node server.js{/}''\<rparr>)))"

definition refreshState_reply :: "config \<Rightarrow> state_body reply \<Rightarrow> tui \<Rightarrow> tui" where
  "refreshState_reply cfg r s =
     (case r of
        Rejected e \<Rightarrow> s
      | Resolved state \<Rightarrow>
          (let s = (if truthy (state_mode state) \<and> state_mode state \<noteq> Some (js ''Unknown'')
                    then s\<lparr>currentMode := the (state_mode state)\<rparr> else s);
               s = (if truthy (state_model state) \<and> state_model state \<noteq> Some (js ''Unknown'')
                    then s\<lparr>currentModel := the (state_model state)\<rparr> else s)
           in updateStatus cfg s))"

definition refreshState :: "config \<Rightarrow> state_body reply \<Rightarrow> tui \<Rightarrow> tui" where
  "refreshState cfg r s = refreshState_reply cfg r (issue (Get (js ''/app-state'')) s)"

text \<open>
  \<^verbatim>\<open>sendMessage\<close> up to its \<^verbatim>\<open>await\<close>: the state, and whether a request
  is pending (it is not when the function returns at its guard).
\<close>

definition sendMessage_sync :: "jstring \<Rightarrow> tui \<Rightarrow> tui \<times> bool" where
  "sendMessage_sync text s =
     (let s = s\<lparr>sendCalls := sendCalls s @ [text]\<rparr>
      in if trim text = [] then (s, False)
         else (issue (Post (js ''/send'') [(js ''message'', text)])
                 (showFeedback ([9203] @ js '' Sending...'') ''yellow'' s), True))"

definition sendMessage_reply :: "post_body reply \<Rightarrow> tui \<Rightarrow> tui" where
  "sendMessage_reply r s =
     (case r of
        Resolved res \<Rightarrow>
          if res_success res = Some True then
            setTimeout RefreshSnapshot 1500
              (setTimeout RefreshSnapshot 500 (showFeedback ([9989] @ js '' Sent'') ''green'' s))
          else
            showFeedback ([10060] @ js '' Send failed: '' @ or_else (res_error res) (js ''unknown''))
              ''red'' s
      | Rejected e \<Rightarrow> showFeedback ([10060] @ js '' Send error: '' @ e) ''red'' s)"

definition sendMessage :: "jstring \<Rightarrow> post_body reply \<Rightarrow> tui \<Rightarrow> tui" where
  "sendMessage text r s =
     (case sendMessage_sync text s of
        (s, False) \<Rightarrow> s
      | (s, True) \<Rightarrow> sendMessage_reply r s)"

definition switchMode :: "config \<Rightarrow> post_body reply \<Rightarrow> tui \<Rightarrow> tui" where
  "switchMode cfg r s =
     (let newMode = (if currentMode s = js ''Fast'' then js ''Planning'' else js ''Fast'');
          s = showFeedback ([9203] @ js '' Switching to '' @ newMode @ js ''...'') ''yellow'' s;
          s = issue (Post (js ''/set-mode'') [(js ''mode'', newMode)]) s
      in case r of
           Resolved res \<Rightarrow>
             if res_success res \<noteq> Some False then
               updateStatus cfg
                 (showFeedback ([9989] @ js '' Mode: '' @ newMode) ''green''
                    (s\<lparr>currentMode := newMode\<rparr>))
             else showFeedback ([10060] @ js '' '' @ or_else (res_error res) (js ''Failed'')) ''red'' s
         | Rejected e \<Rightarrow> showFeedback ([10060] @ js '' '' @ e) ''red'' s)"

subsection \<open>Events\<close>

text \<open>
  The submit handler of the input box. \<^verbatim>\<open>sendMessage\<close> runs to its \<^verbatim>\<open>await\<close>, the
  handler finishes, and the reply of a pending request is handled after it.
\<close>

definition on_submit :: "jstring \<Rightarrow> post_body reply \<Rightarrow> tui \<Rightarrow> tui" where
  "on_submit val r s =
     (let (s, pending) = (if trim val \<noteq> [] then sendMessage_sync (trim val) s else (s, False));
          s = render (s\<lparr>inputValue := [], focused := InputBox\<rparr>)
      in if pending then sendMessage_reply r s else s)"

text \<open>
  A message of the WebSocket, parsed: \<open>None\<close> when \<^verbatim>\<open>JSON.parse\<close> throws. The
  members of a parsed object have distinct keys. Reading a property of \<^verbatim>\<open>null\<close>
  throws as well; of a value that is not an object it is \<^verbatim>\<open>undefined\<close>.
\<close>

datatype json =
    JNull
  | JBool bool
  | JNum rat
  | JStr jstring
  | JArr "json list"
  | JObj "(jstring \<times> json) list"

definition msg_type_is :: "json \<Rightarrow> jstring \<Rightarrow> bool option" where
  "msg_type_is msg t =
     (case msg of
        JNull \<Rightarrow> None
      | JObj members \<Rightarrow> Some (map_of members (js ''type'') = Some (JStr t))
      | _ \<Rightarrow> Some False)"

definition on_message :: "config \<Rightarrow> json option \<Rightarrow> snapshot_body reply \<Rightarrow> tui \<Rightarrow> tui" where
  "on_message cfg data r s =
     (case data of
        None \<Rightarrow> s
      | Some msg \<Rightarrow>
          (case msg_type_is msg (js ''snapshot_update'') of
             None \<Rightarrow> s
           | Some b \<Rightarrow> if b then refreshSnapshot cfg r s else s))"

section \<open>The bridge\<close>

text \<open>
  The client talks to the bridge (\<^verbatim>\<open>server.js\<close>) over HTTP and a WebSocket. The
  bridge is not among the sources at hand; the parts of it the properties below are about
  are modelled from its specification.
\<close>

datatype bridge_error =
    NoTargetFound | Disconnected | Timeout | NoActiveRegion | NotFound | EmptyInput
  | CaptureError

subsection \<open>Snapshot Engine and Change Notifier\<close>

text \<open>
  A snapshot: the captured content in its serialized form, the content hash and the
  time of the capture. The engine keeps the previous snapshot; the notifier keeps its
  subscribers and, here, the events it has pushed to each of them.
\<close>

record snapshot =
  snap_content :: jstring
  snap_hash :: nat
  captured_at :: nat

datatype scope = SnapshotScope | StateScope

datatype push_event = Changed scope

record engine =
  previous :: "snapshot option"
  subscribers :: "nat list"
  pushed :: "(nat \<times> push_event) list"

text \<open>
  Modelled from the spec: \<^verbatim>\<open>publish\<close> of the Change Notifier (section 4.6), which is
  not in the sources. The event is pushed to every live subscription.
\<close>

definition publish :: "push_event \<Rightarrow> engine \<Rightarrow> engine" where
  "publish ev e = e\<lparr>pushed := pushed e @ map (\<lambda>observer. (observer, ev)) (subscribers e)\<rparr>"

text \<open>
  Modelled from the spec: \<^verbatim>\<open>capture\<close> of the Snapshot Engine (section 4.3), which is
  not in the sources. \<open>region\<close> is what the capture routine returns: the serialized
  copy of the active region, or \<open>None\<close> when there is none. The engine computes the
  content hash; if it equals the hash of the previous snapshot, the previous snapshot is
  reused and no change event is published; else the new snapshot takes its place and
  the change is published. The spec does not say whether the first capture, which has no
  previous snapshot to differ from, is announced: \<open>announce_first\<close> decides it.
\<close>

definition capture ::
  "(jstring \<Rightarrow> nat) \<Rightarrow> bool \<Rightarrow> nat \<Rightarrow> jstring option \<Rightarrow> engine \<Rightarrow> (bridge_error + snapshot) \<times> engine" where
  "capture hash_of announce_first now region e =
     (case region of
        None \<Rightarrow> (Inl NoActiveRegion, e)
      | Some content \<Rightarrow>
          (let h = hash_of content;
               fresh = \<lparr>snap_content = content, snap_hash = h, captured_at = now\<rparr>;
               e' = e\<lparr>previous := Some fresh\<rparr>
           in case previous e of
                Some p \<Rightarrow>
                  if snap_hash p = h then (Inr p, e)
                  else (Inr fresh, publish (Changed SnapshotScope) e')
              | None \<Rightarrow>
                  (Inr fresh, if announce_first then publish (Changed SnapshotScope) e' else e')))"

subsection \<open>Target Locator\<close>

record target =
  target_id :: string
  target_title :: string
  target_address :: string

datatype probe_answer = Unreachable | Malformed | TargetList "target list"

text \<open>
  Modelled from the spec: the Target Locator of the bridge (section 4.1), which is not
  in the sources. It probes an ordered list of candidate ports; the first endpoint that
  answers with a well-formed target list holding a target that matches the filter is
  selected, with the first such target; it fails with \<open>NoTargetFound\<close> if every
  candidate is unreachable or no target matches.
\<close>

fun locate :: "(nat \<Rightarrow> probe_answer) \<Rightarrow> (target \<Rightarrow> bool) \<Rightarrow> nat list \<Rightarrow> bridge_error + nat \<times> target" where
  "locate probe matches [] = Inl NoTargetFound"
| "locate probe matches (p # ps) =
     (case probe p of
        TargetList ts \<Rightarrow>
          (case find matches ts of
             Some t \<Rightarrow> Inr (p, t)
           | None \<Rightarrow> locate probe matches ps)
      | _ \<Rightarrow> locate probe matches ps)"

definition selectable :: "(nat \<Rightarrow> probe_answer) \<Rightarrow> (target \<Rightarrow> bool) \<Rightarrow> nat \<Rightarrow> bool" where
  "selectable probe matches p =
     (case probe p of TargetList ts \<Rightarrow> list_ex matches ts | _ \<Rightarrow> False)"

subsection \<open>Element Resolver\<close>

text \<open>
  A role descriptor: the weighted signals, the forbidden signals and the minimum score.
  A signal is a test on an element (a required text, an attribute or tag pattern,
  visibility, plausibility).
\<close>

record 'e role_descriptor =
  role_name :: string
  signals :: "(('e \<Rightarrow> bool) \<times> int) list"
  forbidden :: "('e \<Rightarrow> bool) list"
  min_score :: int

record 'e candidate =
  handle :: 'e
  cand_score :: int

text \<open>
  Modelled from the spec: the scoring of the Element Resolver (section 4.4), which is
  not in the sources. The score is a weighted sum over the signals that match.
\<close>

definition score :: "'e role_descriptor \<Rightarrow> 'e \<Rightarrow> int" where
  "score d e = sum_list (map (\<lambda>(test, weight). if test e then weight else 0) (signals d))"

text \<open>
  Modelled from the spec: any forbidden-signal match disqualifies the element outright
  (section 4.4).
\<close>

definition disqualified :: "'e role_descriptor \<Rightarrow> 'e \<Rightarrow> bool" where
  "disqualified d e = list_ex (\<lambda>test. test e) (forbidden d)"

text \<open>
  Modelled from the spec: the highest-scoring element, ties broken by document order
  (the first one wins).
\<close>

fun best :: "'e role_descriptor \<Rightarrow> 'e list \<Rightarrow> 'e option" where
  "best d [] = None"
| "best d (e # es) =
     (case best d es of
        None \<Rightarrow> Some e
      | Some b \<Rightarrow> if score d e < score d b then Some b else Some e)"

text \<open>
  Modelled from the spec: \<^verbatim>\<open>resolve\<close> of the Element Resolver (section 4.4), over the
  visible elements in document order. The highest-scoring element that is not
  disqualified and is above the minimum-score threshold is the candidate; \<open>NotFound\<close>
  when no element clears the threshold.
\<close>

definition resolve :: "'e role_descriptor \<Rightarrow> 'e list \<Rightarrow> bridge_error + 'e candidate" where
  "resolve d elements =
     (case best d (filter (\<lambda>e. \<not> disqualified d e) elements) of
        None \<Rightarrow> Inl NotFound
      | Some e \<Rightarrow>
          if min_score d < score d e then Inr \<lparr>handle = e, cand_score = score d e\<rparr>
          else Inl NotFound)"

subsection \<open>Action Executor\<close>

datatype operation =
    Send jstring
  | Stop
  | SetMode jstring
  | SetModel jstring
  | RemoteClick string

datatype outcome = Ok | Failed bridge_error

datatype 'h input_write = SetValue 'h jstring | DispatchClick 'h

datatype 'h call = Search string | Write "'h input_write" | VerifyRead

text \<open>
  What an operation runs against: the outcome of resolving each role on the page as it
  is (\<open>None\<close> is the resolver's \<open>NotFound\<close>), and the input simulation of each
  operation on its resolved candidates.
\<close>

record 'h page =
  resolver :: "string \<Rightarrow> 'h option"
  simulate :: "operation \<Rightarrow> 'h list \<Rightarrow> 'h input_write list"

text \<open>
  Modelled from the spec: the role each operation of the Action Executor resolves
  (sections 3 and 4.5, scenario B for \<^verbatim>\<open>send\<close>).
\<close>

definition roles_of :: "operation \<Rightarrow> string list" where
  "roles_of op =
     (case op of
        Send text \<Rightarrow> [''send-button'']
      | Stop \<Rightarrow> [''stop-button'']
      | SetMode name \<Rightarrow> [''mode-selector'']
      | SetModel name \<Rightarrow> [''model-selector'']
      | RemoteClick role \<Rightarrow> [role])"

text \<open>
  Modelled from the spec: the resolution of the roles of an operation, one protocol
  evaluation each, stopping at the first role that is not found.
\<close>

fun resolve_roles :: "(string \<Rightarrow> 'h option) \<Rightarrow> string list \<Rightarrow> 'h list option \<times> 'h call list" where
  "resolve_roles res [] = (Some [], [])"
| "resolve_roles res (r # rs) =
     (case res r of
        None \<Rightarrow> (None, [Search r])
      | Some h \<Rightarrow>
          (case resolve_roles res rs of
             (None, calls) \<Rightarrow> (None, Search r # calls)
           | (Some hs, calls) \<Rightarrow> (Some (h # hs), Search r # calls)))"

definition blank_send :: "operation \<Rightarrow> bool" where
  "blank_send op = (case op of Send text \<Rightarrow> trim text = [] | _ \<Rightarrow> False)"

text \<open>
  Modelled from the spec: an operation of the Action Executor (section 4.5), with the
  protocol calls it makes. \<^verbatim>\<open>send\<close> fails with \<open>EmptyInput\<close> for blank text without
  any protocol call. Each operation resolves the roles it needs; if resolution fails it
  fails fast with the resolver's \<open>NotFound\<close>; else it drives the candidates through
  the input simulation, performs a verification read and reports success.
\<close>

definition execute :: "'h page \<Rightarrow> operation \<Rightarrow> outcome \<times> 'h call list" where
  "execute pg op =
     (if blank_send op then (Failed EmptyInput, [])
      else
        (case resolve_roles (resolver pg) (roles_of op) of
           (None, calls) \<Rightarrow> (Failed NotFound, calls)
         | (Some hs, calls) \<Rightarrow> (Ok, calls @ map Write (simulate pg op hs) @ [VerifyRead])))"

definition writes_of :: "'h call list \<Rightarrow> 'h input_write list" where
  "writes_of calls = concat (map (\<lambda>c. case c of Write w \<Rightarrow> [w] | _ \<Rightarrow> []) calls)"

section \<open>Auxiliary notions\<close>

text \<open>The newlines a text starts with, and the collapsing of newline runs.\<close>

definition lead :: "jstring \<Rightarrow> nat" where
  "lead s = run (Only NL) s"

definition collapse :: "jstring \<Rightarrow> jstring" where
  "collapse s = replace_all False rx_newlines (\<lambda>_. [NL, NL]) s"

text \<open>The defaults of the command line.\<close>

definition localhost :: config where
  "localhost = \<lparr>HOST = js ''localhost'', PORT = js ''3000'', BASE = js ''http://localhost:3000''\<rparr>"

text \<open>The messages whose type is \<^verbatim>\<open>snapshot_update\<close>.\<close>

definition is_snapshot_update :: "json option \<Rightarrow> bool" where
  "is_snapshot_update data =
     (case data of
        Some (JObj members) \<Rightarrow> map_of members (js ''type'') = Some (JStr (js ''snapshot_update''))
      | _ \<Rightarrow> False)"

section \<open>Example data\<close>

text \<open>A bridge whose debugging target answers on port 9002 only.\<close>

definition workbench :: target where
  "workbench =
     \<lparr>target_id = ''page-1'', target_title = ''workbench.html'',
      target_address = ''ws://127.0.0.1:9002/devtools/page/page-1''\<rparr>"

definition only_9002 :: "nat \<Rightarrow> probe_answer" where
  "only_9002 port = (if port = 9002 then TargetList [workbench] else Unreachable)"

text \<open>
  A descriptor of the send button over elements given by their names: the name starts
  with \<open>send\<close> (weight 10), the name is not empty (weight 1); a disabled button is
  forbidden.
\<close>

definition send_role :: "string role_descriptor" where
  "send_role =
     \<lparr>role_name = ''send-button'',
      signals = [(\<lambda>e. take 4 e = ''send'', 10), (\<lambda>e. e \<noteq> [], 1)],
      forbidden = [\<lambda>e. e = ''send-disabled''],
      min_score = 5\<rparr>"

text \<open>An engine before its first capture, with one subscriber.\<close>

definition idle_engine :: engine where
  "idle_engine = \<lparr>previous = None, subscribers = [7], pushed = []\<rparr>"

text \<open>A page on which no role resolves.\<close>

definition bare_page :: "nat page" where
  "bare_page = \<lparr>resolver = (\<lambda>role. None), simulate = (\<lambda>op hs. map DispatchClick hs)\<rparr>"

section \<open>Evaluation\<close>

lemmas rx_defs = rx_exec_def rx_pre_code_def rx_pre_def rx_element_def rx_br_def rx_close_def
  rx_blockquote_def rx_a_def rx_newlines_def rx_tag_def rx_entity_def rx_numeric_entity_def
  lit_def js_def same_char_def canonicalize_def run_def counts_def advance_def in_cls_def
  is_space_def NL_def GT_def

lemmas text_defs = htmlToText_def decodeEntities_def strip_tags_def code_block_def
  inline_code_def heading_def list_item_def blockquote_def wrap_def link_def cap_def
  trim_def trimStart_def trimEnd_def fromCharCode_def parseInt_def

lemma text_of_bold: "htmlToText (Some (js ''<b>hi</b>'')) = js ''*hi*''"
  by (simp add: text_defs rx_defs)

lemma text_of_p: "htmlToText (Some (js ''<p>a</p>'')) = js ''a''"
  by (simp add: text_defs rx_defs)

lemma text_of_div: "htmlToText (Some (js ''<div>a</div>'')) = js ''a''"
  by (simp add: text_defs rx_defs)

lemma text_of_breaks: "htmlToText (Some (js '' a<br><br/><BR ><br>b '')) = js ''a'' @ [NL, NL] @ js ''b''"
  by (simp add: text_defs rx_defs)

lemma trim_spaces: "trim (js ''   '') = []"
  by (simp add: trim_def trimStart_def trimEnd_def js_def is_space_def)

section \<open>Whitespace of the rendered text\<close>

lemma lead_Nil [simp]: "lead [] = 0"
  by (simp add: lead_def run_def)

lemma lead_Cons [simp]: "lead (c # cs) = (if c = NL then Suc (lead cs) else 0)"
  by (simp add: lead_def run_def in_cls_def)

text \<open>\<^verbatim>\<open>/\n{3,}/\<close> matches a whole run of newlines, when the run has three or more.\<close>

lemma rx_exec_newlines:
  "rx_exec False rx_newlines s = (if 3 \<le> lead s then Some (lead s, []) else None)"
proof -
  have m: "rx_match False rx_newlines s = map (\<lambda>n. (n, [])) (rev [3..<Suc (lead s)])"
    by (simp add: rx_newlines_def counts_def advance_def lead_def concat_map_singleton rev_map)
  show ?thesis
  proof (cases "3 \<le> lead s")
    case True
    then have "[3..<Suc (lead s)] = [3..<lead s] @ [lead s]" by simp
    then show ?thesis using True by (simp add: rx_exec_def m)
  next
    case False
    then show ?thesis by (simp add: rx_exec_def m)
  qed
qed

lemma lead_drop: "lead (drop (lead s) s) = 0"
  by (induction s) auto

lemma collapse_Nil [simp]: "collapse [] = []"
  by (simp add: collapse_def rx_exec_newlines)

lemma collapse_Cons:
  "collapse (c # cs) =
     (if 3 \<le> lead (c # cs) then [NL, NL] @ collapse (drop (lead (c # cs)) (c # cs))
      else c # collapse cs)"
  unfolding collapse_def by (simp add: rx_exec_newlines del: lead_Cons)

lemma lead_collapse: "lead (collapse s) = min (lead s) 2"
proof (induction "length s" arbitrary: s rule: less_induct)
  case less
  show ?case
  proof (cases s)
    case Nil
    then show ?thesis by simp
  next
    case (Cons c cs)
    show ?thesis
    proof (cases "3 \<le> lead s")
      case True
      have "length (drop (lead s) s) < length s" using True Cons by simp
      then have z: "lead (collapse (drop (lead s) s)) = 0"
        using less.hyps lead_drop by simp
      have "collapse s = NL # NL # collapse (drop (lead s) s)"
        using True Cons by (simp add: collapse_Cons del: lead_Cons)
      then have "lead (collapse s) = 2" using z by simp
      then show ?thesis using True by simp
    next
      case False
      have "lead (collapse cs) = min (lead cs) 2" using less.hyps Cons by simp
      then show ?thesis using False Cons by (auto simp add: collapse_Cons)
    qed
  qed
qed

lemma prefix_newlines: "prefix [NL, NL, NL] t \<longleftrightarrow> 3 \<le> lead t"
  by (cases t; cases "tl t"; cases "tl (tl t)") (auto split: if_splits)

lemma sublist3_Cons:
  "sublist [NL, NL, NL] (c # t) \<longleftrightarrow> 3 \<le> lead (c # t) \<or> sublist [NL, NL, NL] t"
  using prefix_newlines [of "c # t"] by (simp add: sublist_Cons_right del: lead_Cons)

lemma no_run_collapse: "\<not> sublist [NL, NL, NL] (collapse s)"
proof (induction "length s" arbitrary: s rule: less_induct)
  case less
  show ?case
  proof (cases s)
    case Nil
    then show ?thesis by simp
  next
    case (Cons c cs)
    show ?thesis
    proof (cases "3 \<le> lead s")
      case True
      let ?r = "drop (lead s) s"
      have len: "length ?r < length s" using True Cons by simp
      have a: "\<not> sublist [NL, NL, NL] (collapse ?r)" using less.hyps len by simp
      have b: "lead (collapse ?r) = 0" using lead_collapse lead_drop by simp
      have "collapse s = NL # NL # collapse ?r"
        using True Cons by (simp add: collapse_Cons del: lead_Cons)
      then show ?thesis using a b by (simp add: sublist3_Cons)
    next
      case False
      have a: "\<not> sublist [NL, NL, NL] (collapse cs)" using less.hyps Cons by simp
      have "lead (collapse s) = min (lead s) 2" by (rule lead_collapse)
      then have b: "\<not> 3 \<le> lead (collapse s)" by simp
      have "collapse s = c # collapse cs"
        using False Cons by (simp add: collapse_Cons del: lead_Cons)
      then show ?thesis using a b sublist3_Cons [of c "collapse cs"] by simp
    qed
  qed
qed

lemma trimEnd_prefix: "prefix (trimEnd s) s"
proof -
  have "s = rev (takeWhile is_space (rev s) @ dropWhile is_space (rev s))" by simp
  then have "s = trimEnd s @ rev (takeWhile is_space (rev s))"
    by (simp add: trimEnd_def del: takeWhile_dropWhile_id)
  then show ?thesis by (metis prefixI)
qed

lemma trim_sublist: "sublist (trim s) s"
proof -
  have "sublist (trimEnd (trimStart s)) (trimStart s)"
    using trimEnd_prefix by (rule prefix_imp_sublist)
  moreover have "sublist (trimStart s) s"
    unfolding trimStart_def by (rule suffix_imp_sublist) (rule suffix_dropWhile)
  ultimately show ?thesis unfolding trim_def by (rule sublist_order.order.trans)
qed

lemma trim_ends: "trim s = [] \<or> (\<not> is_space (hd (trim s)) \<and> \<not> is_space (last (trim s)))"
proof (cases "trim s = []")
  case True
  then show ?thesis by simp
next
  case False
  let ?y = "trimStart s"
  have ne: "trimEnd ?y \<noteq> []" using False by (simp add: trim_def)
  then have dne: "dropWhile is_space (rev ?y) \<noteq> []" by (simp add: trimEnd_def)
  have yne: "?y \<noteq> []" using ne by (auto simp: trimEnd_def)
  have l: "\<not> is_space (last (trimEnd ?y))"
    using hd_dropWhile [OF dne] dne by (simp add: trimEnd_def last_rev)
  obtain z where z: "?y = trimEnd ?y @ z" using trimEnd_prefix [of ?y] by (auto simp: prefix_def)
  have "hd ?y = hd (trimEnd ?y)" using z ne by (metis hd_append2)
  moreover have "\<not> is_space (hd ?y)"
    using yne hd_dropWhile [of is_space s] by (simp add: trimStart_def)
  ultimately show ?thesis using l by (simp add: trim_def)
qed

text \<open>The last two steps of \<^verbatim>\<open>htmlToText\<close> are the collapsing and the trimming.\<close>

lemma htmlToText_shape: "htmlToText html = [] \<or> (\<exists>x. htmlToText html = trim (collapse x))"
  unfolding htmlToText_def Let_def collapse_def by (auto split: option.splits)

text \<open>
  Claim C10: \<^verbatim>\<open>htmlToText\<close> returns the empty string when its input is absent or
  empty; on every input, its result neither starts nor ends with whitespace and holds no
  run of three or more newlines.
\<close>

theorem htmlToText_whitespace:
  "htmlToText None = [] \<and> htmlToText (Some []) = []
   \<and> (htmlToText html = []
        \<or> (\<not> is_space (hd (htmlToText html)) \<and> \<not> is_space (last (htmlToText html))))
   \<and> \<not> sublist [NL, NL, NL] (htmlToText html)"
proof -
  have a: "htmlToText None = []" "htmlToText (Some []) = []" by (simp_all add: htmlToText_def)
  have b: "htmlToText html = []
      \<or> (\<not> is_space (hd (htmlToText html)) \<and> \<not> is_space (last (htmlToText html)))"
  proof (cases "htmlToText html = []")
    case True
    then show ?thesis by simp
  next
    case False
    then obtain x where x: "htmlToText html = trim (collapse x)"
      using htmlToText_shape [of html] by auto
    show ?thesis using trim_ends [of "collapse x"] by (simp add: x)
  qed
  have c: "\<not> sublist [NL, NL, NL] (htmlToText html)"
  proof
    assume s: "sublist [NL, NL, NL] (htmlToText html)"
    then have "htmlToText html \<noteq> []" by auto
    then obtain x where "htmlToText html = trim (collapse x)"
      using htmlToText_shape [of html] by auto
    then have "sublist [NL, NL, NL] (collapse x)"
      using s trim_sublist [of "collapse x"] by (metis sublist_order.order.trans)
    then show False using no_run_collapse by simp
  qed
  show ?thesis using a b c by simp
qed

theorem htmlToText_whitespace_witness:
  "htmlToText (Some (js '' a<br><br/><BR ><br>b '')) = js ''a'' @ [NL, NL] @ js ''b''
   \<and> \<not> sublist [NL, NL, NL] (js ''a'' @ [NL, NL] @ js ''b'')
   \<and> \<not> is_space (hd (js ''a'' @ [NL, NL] @ js ''b''))
   \<and> \<not> is_space (last (js ''a'' @ [NL, NL] @ js ''b''))"
proof -
  have "js ''a'' @ [NL, NL] @ js ''b'' \<noteq> []" by (simp add: js_def)
  then show ?thesis
    using htmlToText_whitespace [of "Some (js '' a<br><br/><BR ><br>b '')"]
    by (simp add: text_of_breaks)
qed

section \<open>Effects on the request log\<close>

lemma requests_render [simp]: "requests (render s) = requests s"
  by (simp add: render_def)

lemma requests_setTimeout [simp]: "requests (setTimeout t ms s) = requests s"
  by (simp add: setTimeout_def)

lemma requests_showFeedback [simp]: "requests (showFeedback msg color s) = requests s"
  by (simp add: showFeedback_def)

lemma requests_updateStatus [simp]: "requests (updateStatus cfg s) = requests s"
  by (simp add: updateStatus_def Let_def)

lemma requests_issue [simp]: "requests (issue r s) = requests s @ [r]"
  by (simp add: issue_def)

lemma requests_renderChat [simp]: "requests (renderChat html s) = requests s"
  by (simp add: renderChat_def Let_def render_def)

lemma requests_refreshSnapshot:
  "requests (refreshSnapshot cfg r s) = requests s @ [Get (js ''/snapshot'')]"
  by (simp add: refreshSnapshot_def Let_def split: reply.splits)

section \<open>Rendering the chat\<close>

lemma refreshSnapshot_twice:
  "chatContent (refreshSnapshot cfg r (refreshSnapshot cfg r s))
     = chatContent (refreshSnapshot cfg r s)
   \<and> lastChatText (refreshSnapshot cfg r (refreshSnapshot cfg r s))
     = lastChatText (refreshSnapshot cfg r s)"
  by (cases r)
     (simp_all add: refreshSnapshot_def Let_def issue_def updateStatus_def render_def renderChat_def)

lemma capture_twice:
  "capture hash_of announce_first t2 (Some c) (snd (capture hash_of announce_first t1 (Some c) e))
     = capture hash_of announce_first t1 (Some c) e"
  by (simp add: capture_def Let_def publish_def split: option.splits)

lemma capture_same_hash:
  "previous e = Some p \<Longrightarrow> snap_hash p = hash_of c \<Longrightarrow>
     capture hash_of announce_first now (Some c) e = (Inr p, e)"
  by (simp add: capture_def Let_def)

text \<open>
  Claim C1: of two successive captures of identical content, the second produces no
  change notification and reuses the previous snapshot. In the bridge, the second
  \<^verbatim>\<open>capture\<close> returns the snapshot of the first and leaves the engine as it is,
  the events pushed to the subscribers included; so does every capture whose content
  hash is that of the previous snapshot. In the client, \<^verbatim>\<open>renderChat\<close> called with
  HTML whose text is \<^verbatim>\<open>lastChatText\<close> leaves the whole state as it is, the chat
  display and \<^verbatim>\<open>lastChatText\<close> included; rendering the same HTML a second time
  changes nothing, and neither does the second of two successive \<^verbatim>\<open>refreshSnapshot\<close>
  that get the same reply change the chat display or \<^verbatim>\<open>lastChatText\<close>.
\<close>

theorem renderChat_same_text:
  "capture hash_of announce_first t2 (Some c) (snd (capture hash_of announce_first t1 (Some c) e))
     = capture hash_of announce_first t1 (Some c) e
   \<and> pushed (snd (capture hash_of announce_first t2 (Some c)
                    (snd (capture hash_of announce_first t1 (Some c) e))))
       = pushed (snd (capture hash_of announce_first t1 (Some c) e))
   \<and> (previous e = Some p \<and> snap_hash p = hash_of c \<longrightarrow>
        capture hash_of announce_first t1 (Some c) e = (Inr p, e))
   \<and> (htmlToText html = lastChatText s \<longrightarrow> renderChat html s = s)
   \<and> renderChat html (renderChat html s) = renderChat html s
   \<and> chatContent (refreshSnapshot cfg r (refreshSnapshot cfg r s))
       = chatContent (refreshSnapshot cfg r s)
   \<and> lastChatText (refreshSnapshot cfg r (refreshSnapshot cfg r s))
       = lastChatText (refreshSnapshot cfg r s)"
proof -
  have a: "capture hash_of announce_first t2 (Some c)
        (snd (capture hash_of announce_first t1 (Some c) e))
      = capture hash_of announce_first t1 (Some c) e"
    by (rule capture_twice)
  have b: "previous e = Some p \<and> snap_hash p = hash_of c \<longrightarrow>
      capture hash_of announce_first t1 (Some c) e = (Inr p, e)"
    using capture_same_hash [of e p hash_of c announce_first t1] by blast
  have c: "(htmlToText html = lastChatText s \<longrightarrow> renderChat html s = s)
      \<and> renderChat html (renderChat html s) = renderChat html s"
    by (simp add: renderChat_def Let_def render_def)
  show ?thesis using a b c refreshSnapshot_twice [of cfg r s] by simp
qed

theorem renderChat_same_text_witness:
  "htmlToText (Some (js ''<b>hi</b>'')) = lastChatText (initial\<lparr>lastChatText := js ''*hi*''\<rparr>)
   \<and> renderChat (Some (js ''<b>hi</b>'')) (initial\<lparr>lastChatText := js ''*hi*''\<rparr>)
       = initial\<lparr>lastChatText := js ''*hi*''\<rparr>
   \<and> pushed (snd (capture length True 1 (Some (js ''<b>hi</b>'')) idle_engine))
       = [(7, Changed SnapshotScope)]
   \<and> pushed (snd (capture length True 2 (Some (js ''<b>hi</b>''))
                    (snd (capture length True 1 (Some (js ''<b>hi</b>'')) idle_engine))))
       = [(7, Changed SnapshotScope)]"
proof -
  have h: "htmlToText (Some (js ''<b>hi</b>'')) = lastChatText (initial\<lparr>lastChatText := js ''*hi*''\<rparr>)"
    by (simp add: text_of_bold)
  have p: "pushed (snd (capture length True 1 (Some (js ''<b>hi</b>'')) idle_engine))
      = [(7, Changed SnapshotScope)]"
    by (simp add: capture_def Let_def publish_def idle_engine_def)
  show ?thesis
    using h p renderChat_same_text [of length True 2 "js ''<b>hi</b>''" 1 idle_engine _
        "Some (js ''<b>hi</b>'')" "initial\<lparr>lastChatText := js ''*hi*''\<rparr>"]
    by simp
qed

text \<open>
  Claim C2, as stated, fails: two contents that differ in bytes and convert to the same
  text, here \<^verbatim>\<open><p>a</p>\<close> and then \<^verbatim>\<open><div>a</div>\<close>, are not told apart; the second
  one changes nothing.
\<close>

theorem renderChat_lossy_counterexample:
  "js ''<p>a</p>'' \<noteq> js ''<div>a</div>''
   \<and> renderChat (Some (js ''<div>a</div>'')) (renderChat (Some (js ''<p>a</p>'')) initial)
       = renderChat (Some (js ''<p>a</p>'')) initial"
proof -
  have c: "js ''<p>a</p>'' \<noteq> js ''<div>a</div>''" by (simp add: js_def)
  show ?thesis using c by (simp add: renderChat_def Let_def text_of_p text_of_div render_def)
qed

text \<open>
  Claim C2, amended: the client detects a change exactly when the text the new content
  converts to differs from the text rendered last. Then \<^verbatim>\<open>lastChatText\<close> becomes the
  new text, the chat display becomes its colouring and the view scrolls to the end;
  after every call \<^verbatim>\<open>lastChatText\<close> is the text of the content passed.
\<close>

theorem renderChat_detects_text_change:
  "lastChatText (renderChat html s) = htmlToText html
   \<and> (renderChat html s \<noteq> s \<longleftrightarrow> htmlToText html \<noteq> lastChatText s)
   \<and> (htmlToText html \<noteq> lastChatText s \<longrightarrow>
        renderChat html s =
          render (s\<lparr>lastChatText := htmlToText html, chatContent := colored (htmlToText html),
                    chatScrollPerc := 100\<rparr>))"
proof -
  have "renderChat html s \<noteq> s" if "htmlToText html \<noteq> lastChatText s"
  proof
    assume "renderChat html s = s"
    then have "lastChatText (renderChat html s) = lastChatText s" by simp
    then show False using that by (simp add: renderChat_def Let_def render_def)
  qed
  then show ?thesis by (auto simp add: renderChat_def Let_def render_def)
qed

theorem renderChat_detects_text_change_witness:
  "htmlToText (Some (js ''<p>a</p>'')) \<noteq> lastChatText initial
   \<and> renderChat (Some (js ''<p>a</p>'')) initial
       = render (initial\<lparr>lastChatText := js ''a'', chatContent := js ''a'', chatScrollPerc := 100\<rparr>)"
proof -
  have "js ''a'' \<noteq> []" by (simp add: js_def)
  then have h: "htmlToText (Some (js ''<p>a</p>'')) \<noteq> lastChatText initial"
    by (simp add: text_of_p initial_def)
  have c: "colored (js ''a'') = js ''a''"
    by (simp add: colored_def color_line_def is_user_line_def rx_defs trimStart_def)
  show ?thesis
    using h c renderChat_detects_text_change [of "Some (js ''<p>a</p>'')" initial]
    by (simp add: text_of_p)
qed

section \<open>Sending\<close>

text \<open>
  Claim C3: for blank text the \<^verbatim>\<open>send\<close> operation of the bridge fails with
  \<open>EmptyInput\<close> and makes no protocol call. In the client, \<^verbatim>\<open>sendMessage\<close> returns
  at its guard for blank text: it issues no HTTP request and leaves the state as it is
  (but for the ghost log of its calls); the submit handler does not call
  \<^verbatim>\<open>sendMessage\<close> for a blank value: it clears and focuses the input and redraws,
  and no request is issued.
\<close>

theorem blank_message_not_sent:
  "(trim text = [] \<longrightarrow> execute pg (Send text) = (Failed EmptyInput, []))
   \<and> (trim text = [] \<longrightarrow>
      sendMessage text r s = s\<lparr>sendCalls := sendCalls s @ [text]\<rparr>
      \<and> requests (sendMessage text r s) = requests s)
   \<and> (trim val = [] \<longrightarrow>
      on_submit val r s = render (s\<lparr>inputValue := [], focused := InputBox\<rparr>)
      \<and> sendCalls (on_submit val r s) = sendCalls s
      \<and> requests (on_submit val r s) = requests s)"
  by (simp add: execute_def blank_send_def sendMessage_def sendMessage_sync_def on_submit_def
      Let_def render_def)

theorem blank_message_not_sent_witness:
  "trim (js ''   '') = []
   \<and> execute bare_page (Send (js ''   '')) = (Failed EmptyInput, [])
   \<and> sendMessage (js ''   '') (Resolved \<lparr>res_success = Some True, res_error = None\<rparr>) initial
       = initial\<lparr>sendCalls := [js ''   '']\<rparr>
   \<and> requests (on_submit (js ''   '') (Resolved \<lparr>res_success = Some True, res_error = None\<rparr>) initial) = []
   \<and> sendCalls (on_submit (js ''   '') (Resolved \<lparr>res_success = Some True, res_error = None\<rparr>) initial) = []"
  using trim_spaces
    blank_message_not_sent [of "js ''   ''" bare_page
      "Resolved \<lparr>res_success = Some True, res_error = None\<rparr>" initial "js ''   ''"]
  by (simp add: initial_def render_def)

text \<open>A message that is not blank is posted, as it was passed.\<close>

lemma sendMessage_posts:
  "trim text \<noteq> [] \<Longrightarrow>
     requests (sendMessage text r s) = requests s @ [Post (js ''/send'') [(js ''message'', text)]]"
  by (simp add: sendMessage_def sendMessage_sync_def sendMessage_reply_def Let_def
      split: reply.splits)

section \<open>Push events\<close>

text \<open>
  Claim C4, as stated, fails: on the event \<^verbatim>\<open>{type: "changed", scope: "snapshot"}\<close>
  the message handler of the client does nothing; no request for \<^verbatim>\<open>/snapshot\<close> is
  issued.
\<close>

theorem on_message_changed_counterexample:
  "on_message localhost
     (Some (JObj [(js ''type'', JStr (js ''changed'')), (js ''scope'', JStr (js ''snapshot''))]))
     (Resolved \<lparr>snap_html = Some (js ''<p>new</p>''), snap_error = None\<rparr>) initial = initial
   \<and> requests (on_message localhost
     (Some (JObj [(js ''type'', JStr (js ''changed'')), (js ''scope'', JStr (js ''snapshot''))]))
     (Resolved \<lparr>snap_html = Some (js ''<p>new</p>''), snap_error = None\<rparr>) initial) = []"
  by (simp add: on_message_def msg_type_is_def js_def initial_def)

text \<open>
  Claim C4, amended: the message handler of the client acts on an event by its type
  alone. When the message parses to an object whose type is \<^verbatim>\<open>snapshot_update\<close> it
  runs \<^verbatim>\<open>refreshSnapshot\<close>, which requests \<^verbatim>\<open>/snapshot\<close> and shows what that request
  returns; nothing else of the event is read. Any other message is ignored.
\<close>

theorem on_message_requeries:
  "on_message cfg data r s = (if is_snapshot_update data then refreshSnapshot cfg r s else s)
   \<and> requests (on_message cfg data r s) =
       (if is_snapshot_update data then requests s @ [Get (js ''/snapshot'')] else requests s)"
  by (auto simp add: on_message_def is_snapshot_update_def msg_type_is_def requests_refreshSnapshot
      split: option.splits json.splits)

theorem on_message_requeries_witness:
  "requests (on_message localhost
     (Some (JObj [(js ''type'', JStr (js ''snapshot_update'')), (js ''timestamp'', JStr (js ''t''))]))
     (Rejected (js ''ECONNREFUSED'')) initial) = [Get (js ''/snapshot'')]"
  using on_message_requeries [of localhost
     "Some (JObj [(js ''type'', JStr (js ''snapshot_update'')), (js ''timestamp'', JStr (js ''t''))])"
     "Rejected (js ''ECONNREFUSED'')" initial]
  by (simp add: is_snapshot_update_def js_def initial_def requests_refreshSnapshot)

section \<open>Mode and model\<close>

text \<open>
  Claim C8: \<^verbatim>\<open>switchMode\<close> posts the opposite of \<^verbatim>\<open>currentMode\<close>: the mode
  \<^verbatim>\<open>Planning\<close> when \<^verbatim>\<open>currentMode\<close> is \<^verbatim>\<open>Fast\<close>, and the mode \<^verbatim>\<open>Fast\<close> for every
  other value of it; that one request to \<^verbatim>\<open>/set-mode\<close> is all it issues, and when
  the bridge reports success the posted mode becomes \<^verbatim>\<open>currentMode\<close>, so that the
  next call posts the other mode.
\<close>

theorem switchMode_toggles:
  "requests (switchMode cfg r s) =
     requests s @ [Post (js ''/set-mode'')
       [(js ''mode'', if currentMode s = js ''Fast'' then js ''Planning'' else js ''Fast'')]]
   \<and> currentMode (switchMode cfg (Resolved \<lparr>res_success = Some True, res_error = err\<rparr>) s) =
       (if currentMode s = js ''Fast'' then js ''Planning'' else js ''Fast'')"
  by (simp add: switchMode_def Let_def updateStatus_def render_def showFeedback_def
      setTimeout_def issue_def split: reply.splits)

theorem switchMode_toggles_witness:
  "requests (switchMode localhost (Resolved \<lparr>res_success = Some True, res_error = None\<rparr>) initial)
     = [Post (js ''/set-mode'') [(js ''mode'', js ''Fast'')]]
   \<and> requests (switchMode localhost (Resolved \<lparr>res_success = Some True, res_error = None\<rparr>)
        (initial\<lparr>currentMode := js ''Fast''\<rparr>))
     = [Post (js ''/set-mode'') [(js ''mode'', js ''Planning'')]]"
  using switchMode_toggles [of localhost "Resolved \<lparr>res_success = Some True, res_error = None\<rparr>" initial]
    switchMode_toggles [of localhost "Resolved \<lparr>res_success = Some True, res_error = None\<rparr>"
      "initial\<lparr>currentMode := js ''Fast''\<rparr>"]
  by (simp add: initial_def js_def)

lemma currentMode_updateStatus [simp]: "currentMode (updateStatus cfg s) = currentMode s"
  by (simp add: updateStatus_def Let_def render_def)

lemma currentModel_updateStatus [simp]: "currentModel (updateStatus cfg s) = currentModel s"
  by (simp add: updateStatus_def Let_def render_def)

lemma currentMode_refreshState:
  "currentMode (refreshState cfg r s) =
     (case r of
        Rejected e \<Rightarrow> currentMode s
      | Resolved st \<Rightarrow>
          if truthy (state_mode st) \<and> state_mode st \<noteq> Some (js ''Unknown'')
          then the (state_mode st) else currentMode s)"
  by (simp add: refreshState_def refreshState_reply_def Let_def issue_def split: reply.splits)

lemma currentModel_refreshState:
  "currentModel (refreshState cfg r s) =
     (case r of
        Rejected e \<Rightarrow> currentModel s
      | Resolved st \<Rightarrow>
          if truthy (state_model st) \<and> state_model st \<noteq> Some (js ''Unknown'')
          then the (state_model st) else currentModel s)"
  by (simp add: refreshState_def refreshState_reply_def Let_def issue_def split: reply.splits)

text \<open>
  Claim C9: \<^verbatim>\<open>refreshState\<close> never sets \<^verbatim>\<open>currentMode\<close> or \<^verbatim>\<open>currentModel\<close> to
  \<^verbatim>\<open>Unknown\<close> and never empties them: a field that is not \<^verbatim>\<open>Unknown\<close> (not empty)
  before the call is not \<^verbatim>\<open>Unknown\<close> (not empty) after it. A field changes only to
  the value the fetched state gives it, a value that is present, not empty and not
  \<^verbatim>\<open>Unknown\<close>. A failed read and a read without the fields leave both as they are.
\<close>

theorem refreshState_keeps_known:
  "(currentMode s \<noteq> js ''Unknown'' \<longrightarrow> currentMode (refreshState cfg r s) \<noteq> js ''Unknown'')
   \<and> (currentMode s \<noteq> [] \<longrightarrow> currentMode (refreshState cfg r s) \<noteq> [])
   \<and> (currentModel s \<noteq> js ''Unknown'' \<longrightarrow> currentModel (refreshState cfg r s) \<noteq> js ''Unknown'')
   \<and> (currentModel s \<noteq> [] \<longrightarrow> currentModel (refreshState cfg r s) \<noteq> [])
   \<and> (currentMode (refreshState cfg r s) \<noteq> currentMode s \<longrightarrow>
        (\<exists>st. r = Resolved st \<and> state_mode st = Some (currentMode (refreshState cfg r s)))
        \<and> currentMode (refreshState cfg r s) \<noteq> js ''Unknown''
        \<and> currentMode (refreshState cfg r s) \<noteq> [])
   \<and> (currentModel (refreshState cfg r s) \<noteq> currentModel s \<longrightarrow>
        (\<exists>st. r = Resolved st \<and> state_model st = Some (currentModel (refreshState cfg r s)))
        \<and> currentModel (refreshState cfg r s) \<noteq> js ''Unknown''
        \<and> currentModel (refreshState cfg r s) \<noteq> [])
   \<and> currentMode (refreshState cfg (Rejected e) s) = currentMode s
   \<and> currentModel (refreshState cfg (Rejected e) s) = currentModel s
   \<and> currentMode (refreshState cfg (Resolved \<lparr>state_mode = None, state_model = None\<rparr>) s)
       = currentMode s
   \<and> currentModel (refreshState cfg (Resolved \<lparr>state_mode = None, state_model = None\<rparr>) s)
       = currentModel s"
  by (auto simp add: currentMode_refreshState currentModel_refreshState truthy_def
      split: reply.splits option.splits)

theorem refreshState_keeps_known_witness:
  "currentMode (initial\<lparr>currentMode := js ''Fast''\<rparr>) \<noteq> js ''Unknown''
   \<and> currentMode (refreshState localhost
        (Resolved \<lparr>state_mode = Some (js ''Unknown''), state_model = Some (js ''Gemini 3 Flash'')\<rparr>)
        (initial\<lparr>currentMode := js ''Fast''\<rparr>)) = js ''Fast''
   \<and> currentModel (refreshState localhost
        (Resolved \<lparr>state_mode = Some (js ''Unknown''), state_model = Some (js ''Gemini 3 Flash'')\<rparr>)
        (initial\<lparr>currentMode := js ''Fast''\<rparr>)) = js ''Gemini 3 Flash''"
  using refreshState_keeps_known [of "initial\<lparr>currentMode := js ''Fast''\<rparr>" localhost
      "Resolved \<lparr>state_mode = Some (js ''Unknown''), state_model = Some (js ''Gemini 3 Flash'')\<rparr>"]
  by (simp add: currentMode_refreshState currentModel_refreshState truthy_def initial_def js_def)

section \<open>Target Locator\<close>

lemma selectable_find:
  "selectable probe matches p \<longleftrightarrow> (\<exists>ts t. probe p = TargetList ts \<and> find matches ts = Some t)"
proof -
  have "list_ex matches ts \<longleftrightarrow> (\<exists>t. find matches ts = Some t)" for ts
    using find_None_iff [of matches ts] by (auto simp add: list_ex_iff)
  then show ?thesis by (cases "probe p") (simp_all add: selectable_def)
qed

lemma locate_step:
  "locate probe matches (q # qs) =
     (if selectable probe matches q
      then Inr (q, the (find matches (case probe q of TargetList ts \<Rightarrow> ts | _ \<Rightarrow> [])))
      else locate probe matches qs)"
  by (auto simp add: selectable_find split: probe_answer.splits option.splits)

lemma locate_NoTargetFound:
  "locate probe matches ports = Inl e \<longleftrightarrow> e = NoTargetFound \<and> (\<forall>p \<in> set ports. \<not> selectable probe matches p)"
  by (induction ports) (auto simp add: locate_step simp del: locate.simps(2))

lemma locate_first:
  "locate probe matches ports = Inr (p, t) \<longleftrightarrow>
     (\<exists>before after ts. ports = before @ p # after
        \<and> (\<forall>q \<in> set before. \<not> selectable probe matches q)
        \<and> probe p = TargetList ts \<and> find matches ts = Some t)"
proof (induction ports)
  case Nil
  then show ?case by simp
next
  case (Cons q qs)
  show ?case
  proof (cases "selectable probe matches q")
    case True
    then obtain ts t' where ts: "probe q = TargetList ts" "find matches ts = Some t'"
      by (auto simp add: selectable_find)
    have "locate probe matches (q # qs) = Inr (q, t')" using ts by simp
    moreover have "(\<exists>before after ts. q # qs = before @ p # after
        \<and> (\<forall>q \<in> set before. \<not> selectable probe matches q)
        \<and> probe p = TargetList ts \<and> find matches ts = Some t) \<longleftrightarrow> p = q \<and> t = t'"
    proof
      assume "\<exists>before after ts. q # qs = before @ p # after
        \<and> (\<forall>q \<in> set before. \<not> selectable probe matches q)
        \<and> probe p = TargetList ts \<and> find matches ts = Some t"
      then obtain before after ts' where h: "q # qs = before @ p # after"
        "\<forall>q \<in> set before. \<not> selectable probe matches q"
        "probe p = TargetList ts'" "find matches ts' = Some t" by blast
      have "before = []" using h(1,2) True by (cases before) auto
      then show "p = q \<and> t = t'" using h ts by auto
    next
      assume "p = q \<and> t = t'"
      then show "\<exists>before after ts. q # qs = before @ p # after
        \<and> (\<forall>q \<in> set before. \<not> selectable probe matches q)
        \<and> probe p = TargetList ts \<and> find matches ts = Some t"
        using ts by (intro exI [of _ "[]"] exI [of _ qs] exI [of _ ts]) simp
    qed
    ultimately show ?thesis by auto
  next
    case False
    then have step: "locate probe matches (q # qs) = locate probe matches qs"
      by (simp add: locate_step del: locate.simps(2))
    have "(\<exists>before after ts. q # qs = before @ p # after
        \<and> (\<forall>q \<in> set before. \<not> selectable probe matches q)
        \<and> probe p = TargetList ts \<and> find matches ts = Some t) \<longleftrightarrow>
      (\<exists>before after ts. qs = before @ p # after
        \<and> (\<forall>q \<in> set before. \<not> selectable probe matches q)
        \<and> probe p = TargetList ts \<and> find matches ts = Some t)" (is "?L \<longleftrightarrow> ?R")
    proof
      assume ?L
      then obtain before after ts' where h: "q # qs = before @ p # after"
        "\<forall>q \<in> set before. \<not> selectable probe matches q"
        "probe p = TargetList ts'" "find matches ts' = Some t" by blast
      have sel: "selectable probe matches p" using h(3,4)
        by (auto simp add: selectable_find)
      then have "before \<noteq> []" using h(1) False by (cases before) auto
      then obtain b' where "before = q # b'" using h(1) by (cases before) auto
      then show ?R using h by auto
    next
      assume ?R
      then obtain before after ts' where h: "qs = before @ p # after"
        "\<forall>q \<in> set before. \<not> selectable probe matches q"
        "probe p = TargetList ts'" "find matches ts' = Some t" by blast
      show ?L using h False
        by (intro exI [of _ "q # before"] exI [of _ after] exI [of _ ts']) simp
    qed
    then show ?thesis using step Cons.IH by simp
  qed
qed


lemma locate_lowest:
  assumes "sorted ports" "locate probe matches ports = Inr (p, t)"
    "q \<in> set ports" "selectable probe matches q"
  shows "p \<le> q"
proof -
  obtain before after where h: "ports = before @ p # after"
    "\<forall>x \<in> set before. \<not> selectable probe matches x"
    using assms(2) locate_first [of probe matches ports p t] by blast
  have "q \<in> set (p # after)" using assms(3,4) h by auto
  moreover have "\<forall>x \<in> set (p # after). p \<le> x"
    using assms(1) h(1) by (auto simp add: sorted_append)
  ultimately show ?thesis by blast
qed

text \<open>
  Claim C7: \<^verbatim>\<open>locate\<close> returns the first port in probe order that answers with a
  well-formed target list holding a target that matches the filter, with the first such
  target of the list; among ascending ports that is the lowest such port. It returns
  \<open>NoTargetFound\<close>, and no other error, exactly when no candidate port does so.
  Probing 9000 to 9003 where only 9002 answers with a matching target selects 9002.
\<close>

theorem locate_first_match:
  "(locate probe matches ports = Inr (p, t) \<longleftrightarrow>
      (\<exists>before after ts. ports = before @ p # after
         \<and> (\<forall>q \<in> set before. \<not> selectable probe matches q)
         \<and> probe p = TargetList ts \<and> find matches ts = Some t))
   \<and> (locate probe matches ports = Inl NoTargetFound \<longleftrightarrow>
        (\<forall>q \<in> set ports. \<not> selectable probe matches q))
   \<and> (locate probe matches ports = Inl e \<longrightarrow> e = NoTargetFound)
   \<and> (sorted ports \<and> locate probe matches ports = Inr (p, t) \<longrightarrow>
        (\<forall>q \<in> set ports. selectable probe matches q \<longrightarrow> p \<le> q))"
  using locate_first [of probe matches ports p t] locate_NoTargetFound [of probe matches ports]
    locate_lowest [of ports probe matches p t]
  by blast

theorem locate_first_match_witness:
  "sorted [9000, 9001, 9002, 9003 :: nat]
   \<and> selectable only_9002 (\<lambda>t. target_title t = ''workbench.html'') 9002
   \<and> locate only_9002 (\<lambda>t. target_title t = ''workbench.html'') [9000, 9001, 9002, 9003]
       = Inr (9002, workbench)
   \<and> locate (\<lambda>port. Unreachable) (\<lambda>t. target_title t = ''workbench.html'') [9000, 9001, 9002, 9003]
       = Inl NoTargetFound"
proof -
  have a: "\<exists>before after ts. [9000, 9001, 9002, 9003 :: nat] = before @ 9002 # after
      \<and> (\<forall>q \<in> set before. \<not> selectable only_9002 (\<lambda>t. target_title t = ''workbench.html'') q)
      \<and> only_9002 9002 = TargetList ts
      \<and> find (\<lambda>t. target_title t = ''workbench.html'') ts = Some workbench"
    by (intro exI [of _ "[9000, 9001]"] exI [of _ "[9003]"] exI [of _ "[workbench]"])
       (simp add: selectable_def only_9002_def workbench_def)
  have b: "locate only_9002 (\<lambda>t. target_title t = ''workbench.html'') [9000, 9001, 9002, 9003]
       = Inr (9002, workbench)"
    using a locate_first_match [of only_9002 "\<lambda>t. target_title t = ''workbench.html''"
        "[9000, 9001, 9002, 9003]" 9002 workbench]
    by blast
  have c: "\<forall>q \<in> set [9000, 9001, 9002, 9003 :: nat].
      \<not> selectable (\<lambda>port. Unreachable) (\<lambda>t. target_title t = ''workbench.html'') q"
    by (simp add: selectable_def)
  have d: "locate (\<lambda>port. Unreachable) (\<lambda>t. target_title t = ''workbench.html'') [9000, 9001, 9002, 9003]
       = Inl NoTargetFound"
    using c locate_first_match [of "\<lambda>port. Unreachable" "\<lambda>t. target_title t = ''workbench.html''"
        "[9000, 9001, 9002, 9003]"]
    by blast
  have e: "selectable only_9002 (\<lambda>t. target_title t = ''workbench.html'') 9002"
    by (simp add: selectable_def only_9002_def workbench_def)
  show ?thesis using b d e by simp
qed

section \<open>Element Resolver\<close>

lemma best_None [simp]: "best d es = None \<longleftrightarrow> es = []"
  by (cases es) (auto split: option.splits)

lemma best_mem: "best d es = Some b \<Longrightarrow> b \<in> set es"
  by (induction es arbitrary: b) (auto split: option.splits if_splits)

lemma best_max: "best d es = Some b \<Longrightarrow> e \<in> set es \<Longrightarrow> score d e \<le> score d b"
  by (induction es arbitrary: b) (fastforce split: option.splits if_splits)+

lemma best_first:
  "best d es = Some b \<Longrightarrow>
     \<exists>before after. es = before @ b # after \<and> (\<forall>e \<in> set before. score d e < score d b)"
proof (induction es arbitrary: b)
  case Nil
  then show ?case by simp
next
  case (Cons x xs)
  show ?case
  proof (cases "best d xs")
    case None
    then have "b = x" using Cons.prems by simp
    then show ?thesis by (intro exI [of _ "[]"] exI [of _ xs]) simp
  next
    case (Some b')
    show ?thesis
    proof (cases "score d x < score d b'")
      case True
      then have b: "b = b'" using Cons.prems Some by simp
      obtain before after where h: "xs = before @ b' # after"
        "\<forall>e \<in> set before. score d e < score d b'"
        using Cons.IH [OF Some] by blast
      show ?thesis using h True b
        by (intro exI [of _ "x # before"] exI [of _ after]) simp
    next
      case False
      then have "b = x" using Cons.prems Some by simp
      then show ?thesis by (intro exI [of _ "[]"] exI [of _ xs]) simp
    qed
  qed
qed

lemma resolve_Inr:
  "resolve d elements = Inr c \<longleftrightarrow>
     (\<exists>e. best d (filter (\<lambda>e. \<not> disqualified d e) elements) = Some e
          \<and> min_score d < score d e \<and> c = \<lparr>handle = e, cand_score = score d e\<rparr>)"
  by (auto simp add: resolve_def split: option.splits)

text \<open>
  Claim C5: an element that matches a forbidden signal of the descriptor is never the
  candidate \<^verbatim>\<open>resolve\<close> returns, whatever its score. The candidate returned is an
  element that is not disqualified, scores above the minimum score, and scores at least
  as high as every other element that is not disqualified; a candidate is returned
  exactly when some element that is not disqualified scores above the minimum score, and
  the only failure is \<open>NotFound\<close>.
\<close>

theorem resolve_never_forbidden:
  "(resolve d elements = Inr c \<longrightarrow>
      handle c \<in> set elements \<and> \<not> disqualified d (handle c)
      \<and> cand_score c = score d (handle c) \<and> min_score d < score d (handle c)
      \<and> (\<forall>e \<in> set elements. \<not> disqualified d e \<longrightarrow> score d e \<le> score d (handle c)))
   \<and> (disqualified d x \<longrightarrow> resolve d elements \<noteq> Inr \<lparr>handle = x, cand_score = sc\<rparr>)
   \<and> ((\<exists>e \<in> set elements. \<not> disqualified d e \<and> min_score d < score d e)
        \<longleftrightarrow> (\<exists>c'. resolve d elements = Inr c'))
   \<and> (resolve d elements = Inl err \<longrightarrow> err = NotFound)"
proof -
  let ?ok = "filter (\<lambda>e. \<not> disqualified d e) elements"
  have 1: "handle c \<in> set elements \<and> \<not> disqualified d (handle c)
      \<and> cand_score c = score d (handle c) \<and> min_score d < score d (handle c)
      \<and> (\<forall>e \<in> set elements. \<not> disqualified d e \<longrightarrow> score d e \<le> score d (handle c))"
    if r: "resolve d elements = Inr c" for c
  proof -
    obtain e where e: "best d ?ok = Some e" "min_score d < score d e"
      "c = \<lparr>handle = e, cand_score = score d e\<rparr>"
      using r resolve_Inr [of d elements c] by blast
    have "e \<in> set ?ok" using e(1) by (rule best_mem)
    moreover have "score d e' \<le> score d e" if "e' \<in> set ?ok" for e'
      using e(1) that by (rule best_max)
    ultimately show ?thesis using e by simp
  qed
  have 2: "resolve d elements \<noteq> Inr \<lparr>handle = x, cand_score = sc\<rparr>" if "disqualified d x"
    using 1 [of "\<lparr>handle = x, cand_score = sc\<rparr>"] that by auto
  have 3: "\<exists>c'. resolve d elements = Inr c'"
    if ex: "\<exists>e \<in> set elements. \<not> disqualified d e \<and> min_score d < score d e"
  proof -
    obtain e where e0: "e \<in> set elements" "\<not> disqualified d e" "min_score d < score d e"
      using ex by blast
    then have e: "e \<in> set ?ok" "min_score d < score d e" by simp_all
    then have "?ok \<noteq> []" by (metis empty_iff empty_set)
    then obtain b where b: "best d ?ok = Some b" by (cases "best d ?ok") auto
    have "score d e \<le> score d b" using b e(1) by (rule best_max)
    then have "min_score d < score d b" using e(2) by simp
    then show ?thesis using b by (simp add: resolve_def)
  qed
  have 4: "err = NotFound" if "resolve d elements = Inl err"
    using that by (auto simp add: resolve_def split: option.splits if_splits)
  show ?thesis using 1 2 3 4 by blast
qed

theorem resolve_never_forbidden_witness:
  "disqualified send_role ''send-disabled''
   \<and> score send_role ''send-disabled'' = 11
   \<and> resolve send_role [''menu'', ''send-disabled'', ''send'', ''send-too''] = Inr \<lparr>handle = ''send'', cand_score = 11\<rparr>
   \<and> resolve send_role [''menu'', ''send-disabled'', ''send'', ''send-too'']
       \<noteq> Inr \<lparr>handle = ''send-disabled'', cand_score = 11\<rparr>"
proof -
  have d: "disqualified send_role ''send-disabled''"
    by (simp add: disqualified_def send_role_def)
  have "resolve send_role [''menu'', ''send-disabled'', ''send'', ''send-too'']
       \<noteq> Inr \<lparr>handle = ''send-disabled'', cand_score = 11\<rparr>"
    using d resolve_never_forbidden [of send_role _ _ "''send-disabled''" 11] by blast
  moreover have "score send_role ''send-disabled'' = 11"
    by (simp add: score_def send_role_def)
  moreover have "resolve send_role [''menu'', ''send-disabled'', ''send'', ''send-too'']
      = Inr \<lparr>handle = ''send'', cand_score = 11\<rparr>"
    by (simp add: resolve_def disqualified_def score_def send_role_def)
  ultimately show ?thesis using d by simp
qed

section \<open>Action Executor\<close>

lemma resolve_roles_None:
  "fst (resolve_roles res rs) = None \<longleftrightarrow> (\<exists>r \<in> set rs. res r = None)"
  by (induction rs) (auto split: option.splits prod.splits)

lemma writes_of_resolve_roles: "writes_of (snd (resolve_roles res rs)) = []"
  by (induction rs) (auto simp add: writes_of_def split: option.splits prod.splits)

lemma execute_blank: "blank_send op \<Longrightarrow> execute pg op = (Failed EmptyInput, [])"
  by (simp add: execute_def)

text \<open>
  Claim C6: an operation one of whose roles is not found returns \<open>Failed NotFound\<close>
  and makes no protocol write (a \<^verbatim>\<open>send\<close> of blank text fails before any resolution,
  with \<open>EmptyInput\<close>); so \<^verbatim>\<open>send("hello")\<close> when the send button is not found
  returns \<open>Failed NotFound\<close> with no write made.
\<close>

theorem execute_NotFound_no_write:
  "((\<exists>role \<in> set (roles_of op). resolver pg role = None) \<and> \<not> blank_send op \<longrightarrow>
      fst (execute pg op) = Failed NotFound \<and> writes_of (snd (execute pg op)) = [])
   \<and> (resolver pg ''send-button'' = None \<longrightarrow>
      fst (execute pg (Send (js ''hello''))) = Failed NotFound
      \<and> writes_of (snd (execute pg (Send (js ''hello'')))) = [])"
proof -
  have 1: "fst (execute pg op) = Failed NotFound \<and> writes_of (snd (execute pg op)) = []"
    if "\<exists>role \<in> set (roles_of op). resolver pg role = None" "\<not> blank_send op" for op
  proof -
    have n: "fst (resolve_roles (resolver pg) (roles_of op)) = None"
      using that(1) by (simp add: resolve_roles_None)
    then obtain calls where c: "resolve_roles (resolver pg) (roles_of op) = (None, calls)"
      by (cases "resolve_roles (resolver pg) (roles_of op)") auto
    have "writes_of calls = []"
      using writes_of_resolve_roles [of "resolver pg" "roles_of op"] c by simp
    then show ?thesis using c that(2) by (simp add: execute_def)
  qed
  have hello: "\<not> blank_send (Send (js ''hello''))"
    by (simp add: blank_send_def trim_def trimStart_def trimEnd_def js_def is_space_def)
  have 2: "fst (execute pg (Send (js ''hello''))) = Failed NotFound
      \<and> writes_of (snd (execute pg (Send (js ''hello'')))) = []"
    if "resolver pg ''send-button'' = None"
    using 1 [of "Send (js ''hello'')"] hello that by (simp add: roles_of_def)
  show ?thesis using 1 2 by blast
qed

theorem execute_NotFound_no_write_witness:
  "resolver bare_page ''send-button'' = None
   \<and> fst (execute bare_page (Send (js ''hello''))) = Failed NotFound
   \<and> writes_of (snd (execute bare_page (Send (js ''hello'')))) = []"
proof -
  have h: "resolver bare_page ''send-button'' = None" by (simp add: bare_page_def)
  show ?thesis using h execute_NotFound_no_write [of "Send (js ''hello'')" bare_page] by blast
qed

end
